theory Spec2Isabelle
  imports Main "HOL-Library.AList"
begin

section \<open>The Algolia indexing script (scripts/algolia.ts)\<close>

text \<open>
  The script reads the front matter of every documentation page, turns the pre-rendered
  HTML of each eligible page into search records, saves the records to a remote Algolia
  index and deletes the records of the index that were not saved by this run.

  The embedding passes an explicit state: the contents of the remote index and the trace
  of every observable effect (console lines, file reads, calls of the record generator,
  calls of the index client), in the order the script performs them. What the script
  reads and the libraries it calls are collected in the record \<open>platform\<close>; the remote
  service is described by the record \<open>service\<close>. A \<open>throw\<close> is the left injection of a
  sum.
\<close>

subsection \<open>Data\<close>

text \<open>
  \<open>FrontMatter\<close> (declared in \<open>src/types\<close>): only the fields the script reads. A field
  that may be missing in the metadata is an option.
\<close>

record FrontMatter =
  title :: "string option"
  slug :: string
  draft :: "bool option"
  noindex :: "bool option"
  fm_keywords :: "string list option"

text \<open>The second argument of \<open>htmlToAlgoliaRecord\<close>.\<close>

record meta =
  meta_title :: "string option"
  url :: string
  pathSegments :: "string list"
  meta_keywords :: "string list option"

text \<open>
  A search record. The script never looks inside a record; the index client only looks
  at its \<open>objectID\<close>, which a record may lack (the script saves with
  \<open>autoGenerateObjectIDIfNotExist: true\<close>). Everything else is \<open>attributes\<close>.
\<close>

record algolia_record =
  objectID :: "string option"
  attributes :: string

datatype cause = ENOENT string | ExtractionFailed string

datatype call = Browse | Save | Delete

datatype error =
    MissingEnvVar string
  | ProcessingError string cause
  | ServiceError call

text \<open>The console lines of the script, one constructor per format string.\<close>

datatype log_msg =
    Processing string
  | GeneratedRecords nat
  | FetchingExisting
  | FoundExisting nat string
  | SavingRecords string
  | SavedRecords nat
  | NoStaleRecords
  | DeletingStale
  | DeletedStale nat string

datatype event =
    ConsoleLog log_msg
  | ConsoleError error
  | CreateClient string string
  | InitIndex string
  | LoadFrontMatter
  | ReadFile string
  | HtmlToAlgoliaRecord string meta string
  | BrowseObjects
  | SaveObjects "algolia_record list"
  | DeleteObjects "string list"

type_synonym search_index = "(string \<times> algolia_record) list"

record state =
  remote :: search_index
  trace :: "event list"

text \<open>
  What the script reads: the environment, the working directory, the files on disk, the
  front matter returned by \<open>getDocsFrontMatter\<close> and \<open>getDevDocsFrontMatter\<close> (module
  \<open>src/mdx\<close>), the flag \<open>isDeveloperDocs\<close>, and the two functions of
  \<open>@sentry-internal/global-search\<close>. \<open>htmlToAlgoliaRecord\<close> returns \<open>Inl message\<close> when it
  throws.
\<close>

record platform =
  env :: "string \<rightharpoonup> string"
  cwd :: string
  files :: "string \<rightharpoonup> string"
  isDeveloperDocs :: bool
  getDevDocsFrontMatter :: "FrontMatter list"
  getDocsFrontMatter :: "FrontMatter list"
  htmlToAlgoliaRecord :: "string \<Rightarrow> meta \<Rightarrow> string \<Rightarrow> string + algolia_record list"
  extrapolate :: "string \<Rightarrow> string \<Rightarrow> string list"

text \<open>
  Modelled from the spec: the index client (package \<open>algoliasearch\<close>) is not among the
  sources; the specification describes it as a remote service with bulk upsert of records
  (with an option to auto-assign identifiers), paginated enumeration of the existing
  identifiers, and bulk delete by identifier. Saving is an upsert by \<open>objectID\<close>; a record
  without \<open>objectID\<close> gets the identifier \<open>assignObjectID\<close> chooses from the identifiers
  present; browsing delivers the identifiers in pages of \<open>hitsPerPage\<close>; deleting removes
  by identifier. A call of a kind for which \<open>unavailable\<close> holds throws and leaves the
  index as it is (remote errors are fatal and there is no retry).
\<close>

record service =
  assignObjectID :: "string list \<Rightarrow> string"
  hitsPerPage :: nat
  unavailable :: "call \<Rightarrow> bool"

subsection \<open>JavaScript values\<close>

text \<open>\<open>!x\<close> on an optional string holds for \<open>undefined\<close> and for the empty string.\<close>

definition truthy_string :: "string option \<Rightarrow> bool" where
  "truthy_string v = (case v of None \<Rightarrow> False | Some s \<Rightarrow> s \<noteq> [])"

definition truthy_bool :: "bool option \<Rightarrow> bool" where
  "truthy_bool v = (case v of None \<Rightarrow> False | Some b \<Rightarrow> b)"

text \<open>
  A \<open>Set<string>\<close> keeps its elements in insertion order: a list without duplicates.
  \<open>Array.from\<close> of the set is that list, \<open>size\<close> its length, \<open>has\<close> membership.
\<close>

definition Set_add :: "'a \<Rightarrow> 'a list \<Rightarrow> 'a list" where
  "Set_add x xs = (if x \<in> set xs then xs else xs @ [x])"

definition new_Set :: "'a list \<Rightarrow> 'a list" where
  "new_Set xs = fold Set_add xs []"

text \<open>\<open>path.join\<close> on two segments, without the normalisation of \<open>.\<close> and \<open>..\<close>.\<close>

definition join :: "string \<Rightarrow> string \<Rightarrow> string" where
  "join a b = a @ ''/'' @ b"

text \<open>
  \<open>Promise.all\<close>: all values, or a rejection. When several promises reject, the model
  takes the first in the order of the array; no property below depends on which one it is.
\<close>

fun Promise_all :: "('e + 'a) list \<Rightarrow> 'e + 'a list" where
  "Promise_all [] = Inr []"
| "Promise_all (Inl e # ps) = Inl e"
| "Promise_all (Inr x # ps) = (case Promise_all ps of Inl e \<Rightarrow> Inl e | Inr xs \<Rightarrow> Inr (x # xs))"

subsection \<open>The index client\<close>

text \<open>
  Modelled from the spec: the three operations of the index client on the content of one
  index, an association list from identifiers to records. \<open>index_saveObjects\<close> returns the
  identifiers of the saved records, in the order of the records; \<open>index_deleteObjects\<close>
  returns the identifiers it was given. A page of \<open>paginate\<close> has at least one entry.
\<close>

fun index_saveObjects ::
  "service \<Rightarrow> algolia_record list \<Rightarrow> search_index \<Rightarrow> string list \<times> search_index" where
  "index_saveObjects svc [] idx = ([], idx)"
| "index_saveObjects svc (r # rs) idx =
     (let oid = (case objectID r of Some i \<Rightarrow> i | None \<Rightarrow> assignObjectID svc (map fst idx));
          (ids, idx') = index_saveObjects svc rs (AList.update oid (r\<lparr>objectID := Some oid\<rparr>) idx)
      in (oid # ids, idx'))"

definition index_deleteObjects :: "string list \<Rightarrow> search_index \<Rightarrow> string list \<times> search_index" where
  "index_deleteObjects ids idx = (ids, filter (\<lambda>(k, r). k \<notin> set ids) idx)"

function paginate :: "nat \<Rightarrow> 'a list \<Rightarrow> 'a list list" where
  "paginate n xs = (if xs = [] then [] else take (max 1 n) xs # paginate n (drop (max 1 n) xs))"
  by pat_completeness auto
termination
  by (relation "measure (\<lambda>(n, xs). length xs)") auto

declare paginate.simps [simp del]

definition index_browseObjects :: "service \<Rightarrow> search_index \<Rightarrow> string list list" where
  "index_browseObjects svc idx = paginate (hitsPerPage svc) (map fst idx)"

text \<open>
  The calls as the script sees them: each call is recorded in the trace when it is issued,
  then fails or acts on the index.
\<close>

definition emit :: "event \<Rightarrow> state \<Rightarrow> state" where
  "emit e s = s\<lparr>trace := trace s @ [e]\<rparr>"

definition saveObjects ::
  "service \<Rightarrow> algolia_record list \<Rightarrow> state \<Rightarrow> (error + string list) \<times> state" where
  "saveObjects svc records s =
     (let s1 = emit (SaveObjects records) s in
      if unavailable svc Save then (Inl (ServiceError Save), s1)
      else (let (ids, idx) = index_saveObjects svc records (remote s1)
            in (Inr ids, s1\<lparr>remote := idx\<rparr>)))"

definition deleteObjects ::
  "service \<Rightarrow> string list \<Rightarrow> state \<Rightarrow> (error + string list) \<times> state" where
  "deleteObjects svc ids s =
     (let s1 = emit (DeleteObjects ids) s in
      if unavailable svc Delete then (Inl (ServiceError Delete), s1)
      else (let (deleted, idx) = index_deleteObjects ids (remote s1)
            in (Inr deleted, s1\<lparr>remote := idx\<rparr>)))"

definition browseObjects :: "service \<Rightarrow> state \<Rightarrow> (error + string list list) \<times> state" where
  "browseObjects svc s =
     (let s1 = emit BrowseObjects s in
      if unavailable svc Browse then (Inl (ServiceError Browse), s1)
      else (Inr (index_browseObjects svc (remote s1)), s1))"

subsection \<open>The script\<close>

definition staticHtmlFilesPath :: "platform \<Rightarrow> string" where
  "staticHtmlFilesPath p = join (join (join (cwd p) ''.next'') ''server'') ''app''"

definition ALGOLIA_APP_ID :: "platform \<Rightarrow> string option" where
  "ALGOLIA_APP_ID p = env p ''ALGOLIA_APP_ID''"

definition ALGOLIA_API_KEY :: "platform \<Rightarrow> string option" where
  "ALGOLIA_API_KEY p = env p ''ALGOLIA_API_KEY''"

definition DOCS_INDEX_NAME :: "platform \<Rightarrow> string option" where
  "DOCS_INDEX_NAME p = env p ''DOCS_INDEX_NAME''"

definition ALOGOLIA_SKIP_ON_ERROR :: "platform \<Rightarrow> bool" where
  "ALOGOLIA_SKIP_ON_ERROR p = (env p ''ALOGOLIA_SKIP_ON_ERROR'' = Some ''true'')"

definition htmlFile :: "platform \<Rightarrow> FrontMatter \<Rightarrow> string" where
  "htmlFile p pageFm = join (staticHtmlFilesPath p) (slug pageFm @ ''.html'')"

definition page_meta :: "platform \<Rightarrow> FrontMatter \<Rightarrow> meta" where
  "page_meta p pageFm =
     \<lparr>meta_title = title pageFm,
      url = ''/'' @ slug pageFm @ ''/'',
      pathSegments = map (\<lambda>x. ''/'' @ x @ ''/'') (extrapolate p (slug pageFm) ''/''),
      meta_keywords = fm_keywords pageFm\<rparr>"

text \<open>The \<open>catch\<close> block of \<open>getRecords\<close>.\<close>

definition getRecords_catch ::
  "platform \<Rightarrow> FrontMatter \<Rightarrow> cause \<Rightarrow> state \<Rightarrow> (error + algolia_record list) \<times> state" where
  "getRecords_catch p pageFm e s =
     (let error = ProcessingError (slug pageFm) e in
      if ALOGOLIA_SKIP_ON_ERROR p then (Inr [], emit (ConsoleError error) s)
      else (Inl error, s))"

definition getRecords ::
  "platform \<Rightarrow> FrontMatter \<Rightarrow> state \<Rightarrow> (error + algolia_record list) \<times> state" where
  "getRecords p pageFm s =
     (let s1 = emit (ConsoleLog (Processing (slug pageFm))) s;
          s2 = emit (ReadFile (htmlFile p pageFm)) s1
      in case files p (htmlFile p pageFm) of
           None \<Rightarrow> getRecords_catch p pageFm (ENOENT (htmlFile p pageFm)) s2
         | Some html \<Rightarrow>
             (let s3 = emit (HtmlToAlgoliaRecord html (page_meta p pageFm) ''#main'') s2
              in case htmlToAlgoliaRecord p html (page_meta p pageFm) ''#main'' of
                   Inl msg \<Rightarrow> getRecords_catch p pageFm (ExtractionFailed msg) s3
                 | Inr pageRecords \<Rightarrow> (Inr pageRecords, s3)))"

text \<open>
  \<open>pageFrontMatters.map(getRecords)\<close>: \<open>getRecords\<close> is asynchronous, so a page that fails
  rejects its own promise and the pages after it are still processed. The trace keeps the
  events of one page together, page after page; how the console line of a failure that
  arrives asynchronously interleaves with the events of later pages is not modelled.
\<close>

fun map_getRecords ::
  "platform \<Rightarrow> FrontMatter list \<Rightarrow> state \<Rightarrow> (error + algolia_record list) list \<times> state" where
  "map_getRecords p [] s = ([], s)"
| "map_getRecords p (pageFm # rest) s =
     (let (r, s1) = getRecords p pageFm s;
          (rs, s2) = map_getRecords p rest s1
      in (r # rs, s2))"

definition indexable :: "FrontMatter \<Rightarrow> bool" where
  "indexable frontMatter =
     (\<not> truthy_bool (draft frontMatter) \<and> \<not> truthy_bool (noindex frontMatter)
      \<and> truthy_string (title frontMatter))"

definition generateAlogliaRecords ::
  "platform \<Rightarrow> FrontMatter list \<Rightarrow> state \<Rightarrow> (error + algolia_record list) \<times> state" where
  "generateAlogliaRecords p pageFrontMatters s =
     (let (promises, s1) = map_getRecords p (filter indexable pageFrontMatters) s
      in case Promise_all promises of
           Inl e \<Rightarrow> (Inl e, s1)
         | Inr records \<Rightarrow> (Inr (concat records), s1))"

definition fetchExistingRecordIds :: "service \<Rightarrow> state \<Rightarrow> (error + string list) \<times> state" where
  "fetchExistingRecordIds svc s =
     (let s1 = emit (ConsoleLog FetchingExisting) s;
          (r, s2) = browseObjects svc s1
      in case r of
           Inl e \<Rightarrow> (Inl e, s2)
         | Inr chunks \<Rightarrow> (Inr (fold (\<lambda>chunk acc. fold Set_add chunk acc) chunks []), s2))"

definition pageFrontMatters :: "platform \<Rightarrow> FrontMatter list" where
  "pageFrontMatters p = (if isDeveloperDocs p then getDevDocsFrontMatter p else getDocsFrontMatter p)"

definition indexAndUpload ::
  "platform \<Rightarrow> service \<Rightarrow> string \<Rightarrow> state \<Rightarrow> (error + unit) \<times> state" where
  "indexAndUpload p svc indexName s =
     (let (r1, s1) = generateAlogliaRecords p (pageFrontMatters p) (emit LoadFrontMatter s)
      in case r1 of
           Inl e \<Rightarrow> (Inl e, s1)
         | Inr records \<Rightarrow>
             (let (r2, s2) =
                    fetchExistingRecordIds svc (emit (ConsoleLog (GeneratedRecords (length records))) s1)
              in case r2 of
                   Inl e \<Rightarrow> (Inl e, s2)
                 | Inr existingRecordIds \<Rightarrow>
                     (let s3 = emit (ConsoleLog (FoundExisting (length existingRecordIds) indexName)) s2;
                          s4 = emit (ConsoleLog (SavingRecords indexName)) s3;
                          (r3, s5) = saveObjects svc records s4
                      in case r3 of
                           Inl e \<Rightarrow> (Inl e, s5)
                         | Inr objectIDs \<Rightarrow>
                             (let newRecordIDs = new_Set objectIDs;
                                  s6 = emit (ConsoleLog (SavedRecords (length newRecordIDs))) s5;
                                  recordsToDelete =
                                    filter (\<lambda>id. id \<notin> set newRecordIDs) existingRecordIds
                              in if length recordsToDelete = 0
                                 then (Inr (), emit (ConsoleLog NoStaleRecords) s6)
                                 else (let (r4, s7) =
                                             deleteObjects svc recordsToDelete
                                               (emit (ConsoleLog DeletingStale) s6)
                                       in case r4 of
                                            Inl e \<Rightarrow> (Inl e, s7)
                                          | Inr deleted \<Rightarrow>
                                              (Inr (),
                                               emit (ConsoleLog (DeletedStale (length deleted) indexName))
                                                 s7))))))"

text \<open>
  The module body: the three checks of the configuration, the construction of the client
  and of the index, and the call of \<open>indexAndUpload\<close>, whose rejection ends the process.
\<close>

definition script :: "platform \<Rightarrow> service \<Rightarrow> state \<Rightarrow> (error + unit) \<times> state" where
  "script p svc s =
     (if \<not> truthy_string (ALGOLIA_APP_ID p) then (Inl (MissingEnvVar ''ALGOLIA_APP_ID''), s)
      else if \<not> truthy_string (ALGOLIA_API_KEY p) then (Inl (MissingEnvVar ''ALGOLIA_API_KEY''), s)
      else if \<not> truthy_string (DOCS_INDEX_NAME p) then (Inl (MissingEnvVar ''DOCS_INDEX_NAME''), s)
      else (let s1 = emit (CreateClient (the (ALGOLIA_APP_ID p)) (the (ALGOLIA_API_KEY p))) s;
                s2 = emit (InitIndex (the (DOCS_INDEX_NAME p))) s1
            in indexAndUpload p svc (the (DOCS_INDEX_NAME p)) s2))"

subsection \<open>Summaries used in the statements\<close>

text \<open>
  What the \<open>try\<close> block of \<open>getRecords\<close> throws for a page, if anything: the artifact is
  missing, or the generator throws.
\<close>

definition page_failure :: "platform \<Rightarrow> FrontMatter \<Rightarrow> cause option" where
  "page_failure p pageFm =
     (case files p (htmlFile p pageFm) of
        None \<Rightarrow> Some (ENOENT (htmlFile p pageFm))
      | Some html \<Rightarrow>
          (case htmlToAlgoliaRecord p html (page_meta p pageFm) ''#main'' of
             Inl msg \<Rightarrow> Some (ExtractionFailed msg)
           | Inr pageRecords \<Rightarrow> None))"

text \<open>The records the generator returns for a page; none when the page fails.\<close>

definition page_records :: "platform \<Rightarrow> FrontMatter \<Rightarrow> algolia_record list" where
  "page_records p pageFm =
     (case files p (htmlFile p pageFm) of
        None \<Rightarrow> []
      | Some html \<Rightarrow>
          (case htmlToAlgoliaRecord p html (page_meta p pageFm) ''#main'' of
             Inl msg \<Rightarrow> []
           | Inr pageRecords \<Rightarrow> pageRecords))"

definition page_result :: "platform \<Rightarrow> FrontMatter \<Rightarrow> error + algolia_record list" where
  "page_result p pageFm =
     (case page_failure p pageFm of
        Some c \<Rightarrow>
          (if ALOGOLIA_SKIP_ON_ERROR p then Inr [] else Inl (ProcessingError (slug pageFm) c))
      | None \<Rightarrow> Inr (page_records p pageFm))"

definition generator_call :: "platform \<Rightarrow> FrontMatter \<Rightarrow> event list" where
  "generator_call p pageFm =
     (case files p (htmlFile p pageFm) of
        None \<Rightarrow> []
      | Some html \<Rightarrow> [HtmlToAlgoliaRecord html (page_meta p pageFm) ''#main''])"

definition page_events :: "platform \<Rightarrow> FrontMatter \<Rightarrow> event list" where
  "page_events p pageFm =
     [ConsoleLog (Processing (slug pageFm)), ReadFile (htmlFile p pageFm)] @
     generator_call p pageFm @
     (case page_failure p pageFm of
        Some c \<Rightarrow>
          (if ALOGOLIA_SKIP_ON_ERROR p
           then [ConsoleError (ProcessingError (slug pageFm) c)] else [])
      | None \<Rightarrow> [])"

definition records_result :: "platform \<Rightarrow> FrontMatter list \<Rightarrow> error + algolia_record list" where
  "records_result p fms =
     (case Promise_all (map (page_result p) (filter indexable fms)) of
        Inl e \<Rightarrow> Inl e
      | Inr records \<Rightarrow> Inr (concat records))"

definition records_events :: "platform \<Rightarrow> FrontMatter list \<Rightarrow> event list" where
  "records_events p fms = concat (map (page_events p) (filter indexable fms))"

definition log :: "event list \<Rightarrow> state \<Rightarrow> state" where
  "log evs s = s\<lparr>trace := trace s @ evs\<rparr>"

text \<open>The identifiers \<open>fetchExistingRecordIds\<close> returns for an index.\<close>

definition existing_ids :: "service \<Rightarrow> search_index \<Rightarrow> string list" where
  "existing_ids svc idx =
     fold (\<lambda>chunk acc. fold Set_add chunk acc) (index_browseObjects svc idx) []"

text \<open>
  The value of \<open>recordsToDelete\<close> in \<open>indexAndUpload\<close> when \<open>records\<close> are saved to an index
  whose content before the run is \<open>idx\<close>.
\<close>

definition recordsToDelete :: "service \<Rightarrow> algolia_record list \<Rightarrow> search_index \<Rightarrow> string list" where
  "recordsToDelete svc records idx =
     filter (\<lambda>id. id \<notin> set (new_Set (fst (index_saveObjects svc records idx))))
       (existing_ids svc idx)"

text \<open>Projections of a trace: the calls of the index client, the calls of the generator.\<close>

fun is_remote_call :: "event \<Rightarrow> bool" where
  "is_remote_call BrowseObjects = True"
| "is_remote_call (SaveObjects records) = True"
| "is_remote_call (DeleteObjects ids) = True"
| "is_remote_call e = False"

definition remote_calls :: "event list \<Rightarrow> event list" where
  "remote_calls evs = filter is_remote_call evs"

fun is_generator_call :: "event \<Rightarrow> bool" where
  "is_generator_call (HtmlToAlgoliaRecord html m selector) = True"
| "is_generator_call e = False"

definition generator_calls :: "event list \<Rightarrow> event list" where
  "generator_calls evs = filter is_generator_call evs"

definition configured :: "platform \<Rightarrow> bool" where
  "configured p =
     (truthy_string (ALGOLIA_APP_ID p) \<and> truthy_string (ALGOLIA_API_KEY p)
      \<and> truthy_string (DOCS_INDEX_NAME p))"

definition identifiers :: "search_index \<Rightarrow> string set" where
  "identifiers idx = fst ` set idx"

text \<open>
  Modelled from the spec: the record generator \<open>htmlToAlgoliaRecord\<close> (package
  \<open>@sentry-internal/global-search\<close>) is not among the sources; the specification's data
  model says that the fields of a record include an identifier. Every record the
  generator returns carries its \<open>objectID\<close>.
\<close>

definition records_carry_identifiers :: "platform \<Rightarrow> bool" where
  "records_carry_identifiers p =
     (\<forall>html m selector records.
        htmlToAlgoliaRecord p html m selector = Inr records \<longrightarrow>
        (\<forall>r \<in> set records. objectID r \<noteq> None))"

subsection \<open>A concrete run\<close>

text \<open>
  Two pages, \<open>a\<close> and the draft \<open>b\<close>; the artifact of \<open>a\<close> is on disk and yields one record
  with identifier \<open>a-1\<close>; the index holds \<open>a-old\<close> and \<open>c\<close>.
\<close>

definition page_a :: FrontMatter where
  "page_a = \<lparr>title = Some ''A'', slug = ''a'', draft = None, noindex = None, fm_keywords = None\<rparr>"

definition page_b :: FrontMatter where
  "page_b = \<lparr>title = Some ''B'', slug = ''b'', draft = Some True, noindex = None, fm_keywords = None\<rparr>"

text \<open>A page that is eligible and has no artifact on disk.\<close>

definition page_m :: FrontMatter where
  "page_m = \<lparr>title = Some ''M'', slug = ''m'', draft = None, noindex = None, fm_keywords = None\<rparr>"

definition ex_generator :: "string \<Rightarrow> meta \<Rightarrow> string \<Rightarrow> string + algolia_record list" where
  "ex_generator html m selector =
     (if html = [] then Inl ''no content''
      else Inr [\<lparr>objectID = Some (html @ ''-1''), attributes = url m\<rparr>])"

definition ex_platform :: platform where
  "ex_platform =
     \<lparr>env = [''ALGOLIA_APP_ID'' \<mapsto> ''app'', ''ALGOLIA_API_KEY'' \<mapsto> ''key'',
             ''DOCS_INDEX_NAME'' \<mapsto> ''docs''],
      cwd = ''/repo'',
      files = [''/repo/.next/server/app/a.html'' \<mapsto> ''a''],
      isDeveloperDocs = False,
      getDevDocsFrontMatter = [],
      getDocsFrontMatter = [page_a, page_b],
      htmlToAlgoliaRecord = ex_generator,
      extrapolate = (\<lambda>s sep. [s])\<rparr>"

definition ex_service :: service where
  "ex_service =
     \<lparr>assignObjectID = (\<lambda>ids. ''auto-'' @ concat ids), hitsPerPage = 1000,
      unavailable = (\<lambda>c. False)\<rparr>"

definition ex_state :: state where
  "ex_state =
     \<lparr>remote = [(''a-old'', \<lparr>objectID = Some ''a-old'', attributes = ''/a-old/''\<rparr>),
                (''c'', \<lparr>objectID = Some ''c'', attributes = ''/c/''\<rparr>)],
      trace = []\<rparr>"

text \<open>The same run with the page \<open>m\<close> added, without and with the skip-on-error flag.\<close>

definition ex_platform_missing :: platform where
  "ex_platform_missing = ex_platform\<lparr>getDocsFrontMatter := [page_m, page_a, page_b]\<rparr>"

definition ex_platform_skip :: platform where
  "ex_platform_skip =
     ex_platform_missing\<lparr>env := (env ex_platform)(''ALOGOLIA_SKIP_ON_ERROR'' \<mapsto> ''true'')\<rparr>"

text \<open>The same run without the access key.\<close>

definition ex_platform_unconfigured :: platform where
  "ex_platform_unconfigured = ex_platform\<lparr>env := [''ALGOLIA_APP_ID'' \<mapsto> ''app'']\<rparr>"

text \<open>An index that already holds exactly the record of page \<open>a\<close>.\<close>

definition ex_state_synced :: state where
  "ex_state_synced =
     \<lparr>remote = [(''a-1'', \<lparr>objectID = Some ''a-1'', attributes = ''/a/''\<rparr>)], trace = []\<rparr>"

section \<open>Properties\<close>

subsection \<open>Sets, pages and the index client\<close>

lemma log_simps:
  "remote (log evs s) = remote s"
  "trace (log evs s) = trace s @ evs"
  "log evs (log evs' s) = log (evs' @ evs) s"
  "emit e s = log [e] s"
  "log [] s = s"
  "log evs s\<lparr>remote := idx\<rparr> = log evs (s\<lparr>remote := idx\<rparr>)"
  by (simp_all add: log_def emit_def)

lemma set_fold_Set_add: "set (fold Set_add xs acc) = set acc \<union> set xs"
  by (induction xs arbitrary: acc) (auto simp: Set_add_def)

lemma set_new_Set: "set (new_Set xs) = set xs"
  by (simp add: new_Set_def set_fold_Set_add)

lemma set_fold_chunks:
  "set (fold (\<lambda>chunk acc. fold Set_add chunk acc) chunks acc) = set acc \<union> set (concat chunks)"
  by (induction chunks arbitrary: acc) (auto simp: set_fold_Set_add)

lemma concat_paginate: "concat (paginate n xs) = xs"
  by (induction n xs rule: paginate.induct) (subst paginate.simps, simp)

lemma set_existing_ids: "set (existing_ids svc idx) = identifiers idx"
  by (simp add: existing_ids_def set_fold_chunks index_browseObjects_def concat_paginate
      identifiers_def)

lemma identifiers_saveObjects:
  "identifiers (snd (index_saveObjects svc rs idx)) =
     identifiers idx \<union> set (fst (index_saveObjects svc rs idx))"
proof (induction rs arbitrary: idx)
  case Nil
  show ?case by simp
next
  case (Cons r rs)
  define oid where
    "oid = (case objectID r of Some i \<Rightarrow> i | None \<Rightarrow> assignObjectID svc (map fst idx))"
  define idx1 where "idx1 = AList.update oid (r\<lparr>objectID := Some oid\<rparr>) idx"
  have step: "index_saveObjects svc (r # rs) idx =
      (oid # fst (index_saveObjects svc rs idx1), snd (index_saveObjects svc rs idx1))"
    by (simp add: oid_def idx1_def Let_def split: prod.splits)
  have "identifiers idx1 = {oid} \<union> identifiers idx"
    by (simp add: idx1_def AList.dom_update identifiers_def)
  with Cons.IH [of idx1] show ?case
    unfolding step by auto
qed

lemma identifiers_deleteObjects:
  "identifiers (snd (index_deleteObjects ids idx)) = identifiers idx - set ids"
  by (auto simp: index_deleteObjects_def identifiers_def)

lemma set_recordsToDelete:
  "set (recordsToDelete svc records idx) =
     identifiers idx - set (fst (index_saveObjects svc records idx))"
  by (auto simp: recordsToDelete_def set_existing_ids set_new_Set)

subsection \<open>The functions of the script in closed form\<close>

lemma getRecords_eq: "getRecords p d s = (page_result p d, log (page_events p d) s)"
  by (simp add: getRecords_def getRecords_catch_def page_result_def page_events_def
      page_failure_def page_records_def generator_call_def log_def emit_def Let_def
      split: option.splits sum.splits)

lemma map_getRecords_eq:
  "map_getRecords p ds s = (map (page_result p) ds, log (concat (map (page_events p) ds)) s)"
  by (induction ds arbitrary: s) (simp_all add: getRecords_eq log_simps)

lemma generateAlogliaRecords_eq:
  "generateAlogliaRecords p fms s = (records_result p fms, log (records_events p fms) s)"
  by (simp add: generateAlogliaRecords_def map_getRecords_eq records_result_def records_events_def
      split: sum.splits)

lemma fetchExistingRecordIds_eq:
  "fetchExistingRecordIds svc s =
     (if unavailable svc Browse then Inl (ServiceError Browse)
      else Inr (existing_ids svc (remote s)),
      log [ConsoleLog FetchingExisting, BrowseObjects] s)"
  by (simp add: fetchExistingRecordIds_def browseObjects_def existing_ids_def log_simps Let_def)

lemmas indexAndUpload_unfold =
  indexAndUpload_def generateAlogliaRecords_eq fetchExistingRecordIds_eq saveObjects_def
  deleteObjects_def log_simps Let_def case_prod_beta recordsToDelete_def

lemma remote_calls_simps:
  "remote_calls [] = []"
  "remote_calls (e # es) = (if is_remote_call e then e # remote_calls es else remote_calls es)"
  "remote_calls (es @ es') = remote_calls es @ remote_calls es'"
  by (simp_all add: remote_calls_def)

lemma remote_calls_page_events: "remote_calls (page_events p d) = []"
  by (simp add: remote_calls_def page_events_def generator_call_def split: option.splits)

lemma remote_calls_records_events: "remote_calls (records_events p fms) = []"
  unfolding records_events_def
  by (induction fms) (use remote_calls_page_events in \<open>simp_all add: remote_calls_def\<close>)

lemma indexAndUpload_result:
  "fst (indexAndUpload p svc name s) =
     (case records_result p (pageFrontMatters p) of
        Inl e \<Rightarrow> Inl e
      | Inr records \<Rightarrow>
          if unavailable svc Browse then Inl (ServiceError Browse)
          else if unavailable svc Save then Inl (ServiceError Save)
          else if recordsToDelete svc records (remote s) = [] then Inr ()
          else if unavailable svc Delete then Inl (ServiceError Delete)
          else Inr ())"
  by (simp add: indexAndUpload_unfold split: sum.splits)

lemma indexAndUpload_remote:
  "remote (snd (indexAndUpload p svc name s)) =
     (case records_result p (pageFrontMatters p) of
        Inl e \<Rightarrow> remote s
      | Inr records \<Rightarrow>
          if unavailable svc Browse \<or> unavailable svc Save then remote s
          else if recordsToDelete svc records (remote s) = [] \<or> unavailable svc Delete
          then snd (index_saveObjects svc records (remote s))
          else snd (index_deleteObjects (recordsToDelete svc records (remote s))
                 (snd (index_saveObjects svc records (remote s)))))"
  by (simp add: indexAndUpload_unfold split: sum.splits)

lemma indexAndUpload_remote_calls:
  "remote_calls (trace (snd (indexAndUpload p svc name s))) =
     remote_calls (trace s) @
     (case records_result p (pageFrontMatters p) of
        Inl e \<Rightarrow> []
      | Inr records \<Rightarrow>
          BrowseObjects #
          (if unavailable svc Browse then []
           else SaveObjects records #
             (if unavailable svc Save \<or> recordsToDelete svc records (remote s) = [] then []
              else [DeleteObjects (recordsToDelete svc records (remote s))])))"
  using remote_calls_records_events [of p "pageFrontMatters p"]
  by (simp add: indexAndUpload_unfold remote_calls_def split: sum.splits)

lemma indexAndUpload_trace:
  "\<exists>rest. trace (snd (indexAndUpload p svc name s)) =
     trace s @ LoadFrontMatter # records_events p (pageFrontMatters p) @ rest"
  by (simp add: indexAndUpload_unfold split: sum.splits)

lemma script_unconfigured:
  "\<not> configured p \<Longrightarrow> \<exists>v. script p svc s = (Inl (MissingEnvVar v), s)"
  by (auto simp: script_def configured_def)

lemma script_configured:
  "configured p \<Longrightarrow>
     script p svc s =
       indexAndUpload p svc (the (DOCS_INDEX_NAME p))
         (log [CreateClient (the (ALGOLIA_APP_ID p)) (the (ALGOLIA_API_KEY p)),
               InitIndex (the (DOCS_INDEX_NAME p))] s)"
  by (simp add: script_def configured_def log_simps Let_def)

lemma script_result:
  "configured p \<Longrightarrow>
   fst (script p svc s) =
     (case records_result p (pageFrontMatters p) of
        Inl e \<Rightarrow> Inl e
      | Inr records \<Rightarrow>
          if unavailable svc Browse then Inl (ServiceError Browse)
          else if unavailable svc Save then Inl (ServiceError Save)
          else if recordsToDelete svc records (remote s) = [] then Inr ()
          else if unavailable svc Delete then Inl (ServiceError Delete)
          else Inr ())"
  by (simp add: script_configured indexAndUpload_result log_simps split: sum.splits)

lemma script_remote:
  "configured p \<Longrightarrow>
   remote (snd (script p svc s)) =
     (case records_result p (pageFrontMatters p) of
        Inl e \<Rightarrow> remote s
      | Inr records \<Rightarrow>
          if unavailable svc Browse \<or> unavailable svc Save then remote s
          else if recordsToDelete svc records (remote s) = [] \<or> unavailable svc Delete
          then snd (index_saveObjects svc records (remote s))
          else snd (index_deleteObjects (recordsToDelete svc records (remote s))
                 (snd (index_saveObjects svc records (remote s)))))"
  by (simp add: script_configured indexAndUpload_remote log_simps split: sum.splits)

lemma script_remote_calls:
  "configured p \<Longrightarrow>
   remote_calls (trace (snd (script p svc s))) =
     remote_calls (trace s) @
     (case records_result p (pageFrontMatters p) of
        Inl e \<Rightarrow> []
      | Inr records \<Rightarrow>
          BrowseObjects #
          (if unavailable svc Browse then []
           else SaveObjects records #
             (if unavailable svc Save \<or> recordsToDelete svc records (remote s) = [] then []
              else [DeleteObjects (recordsToDelete svc records (remote s))])))"
  by (simp add: script_configured indexAndUpload_remote_calls log_simps remote_calls_simps
      split: sum.splits)

lemma script_success_configured: "fst (script p svc s) = Inr () \<Longrightarrow> configured p"
  using script_unconfigured [of p svc s] by (cases "configured p") auto

subsection \<open>Per-page results\<close>

lemma Promise_all_Inl_mem: "Promise_all rs = Inl e \<Longrightarrow> Inl e \<in> set rs"
  by (induction rs rule: Promise_all.induct) (auto split: sum.splits)

lemma Promise_all_Inr: "Promise_all rs = Inr xs \<Longrightarrow> rs = map Inr xs"
  by (induction rs arbitrary: xs rule: Promise_all.induct) (auto split: sum.splits)

lemma Promise_all_map_Inr: "Promise_all (map Inr xs) = Inr xs"
  by (induction xs) simp_all

lemma Promise_all_rejects: "Inl e \<in> set rs \<Longrightarrow> \<exists>e'. Promise_all rs = Inl e'"
  by (induction rs rule: Promise_all.induct) (auto split: sum.splits)

lemma page_result_skip: "ALOGOLIA_SKIP_ON_ERROR p \<Longrightarrow> page_result p d = Inr (page_records p d)"
  by (simp add: page_result_def page_failure_def page_records_def split: option.splits sum.splits)

lemma page_result_Inr: "page_result p d = Inr rs \<Longrightarrow> rs = page_records p d"
  by (auto simp: page_result_def page_failure_def page_records_def
      split: option.splits sum.splits if_splits)

lemma page_result_Inl:
  "page_result p d = Inl e \<longleftrightarrow>
     \<not> ALOGOLIA_SKIP_ON_ERROR p \<and> (\<exists>c. page_failure p d = Some c \<and> e = ProcessingError (slug d) c)"
  by (auto simp: page_result_def split: option.splits)

lemma Promise_all_page_results:
  "Promise_all (map (page_result p) ds) = Inr rss \<Longrightarrow> rss = map (page_records p) ds"
proof (induction ds arbitrary: rss)
  case Nil
  then show ?case by simp
next
  case (Cons d ds)
  show ?case
  proof (cases "page_result p d")
    case (Inl e)
    with Cons.prems show ?thesis by simp
  next
    case (Inr rs)
    with Cons.prems obtain rss' where tl: "Promise_all (map (page_result p) ds) = Inr rss'"
      and rss: "rss = rs # rss'"
      by (auto split: sum.splits)
    from Cons.IH [OF tl] rss Inr show ?thesis
      by (simp add: page_result_Inr)
  qed
qed

lemma records_result_Inr:
  "records_result p fms = Inr records \<Longrightarrow>
     records = concat (map (page_records p) (filter indexable fms))"
  by (auto simp: records_result_def split: sum.splits dest: Promise_all_page_results)

lemma map_page_result_skip:
  "ALOGOLIA_SKIP_ON_ERROR p \<Longrightarrow> map (page_result p) ds = map Inr (map (page_records p) ds)"
  by (induction ds) (simp_all add: page_result_skip)

lemma records_result_skip:
  "ALOGOLIA_SKIP_ON_ERROR p \<Longrightarrow>
     records_result p fms = Inr (concat (map (page_records p) (filter indexable fms)))"
  unfolding records_result_def
  by (simp only: map_page_result_skip Promise_all_map_Inr sum.case)

lemma records_result_Inl:
  assumes "records_result p fms = Inl e"
  shows "\<not> ALOGOLIA_SKIP_ON_ERROR p \<and>
         (\<exists>d \<in> set fms. indexable d \<and> (\<exists>c. page_failure p d = Some c \<and> e = ProcessingError (slug d) c))"
proof -
  from assms have "Promise_all (map (page_result p) (filter indexable fms)) = Inl e"
    by (auto simp: records_result_def split: sum.splits)
  then have "Inl e \<in> set (map (page_result p) (filter indexable fms))"
    by (rule Promise_all_Inl_mem)
  then obtain d where "d \<in> set fms" "indexable d" "page_result p d = Inl e"
    by auto
  then show ?thesis
    by (auto simp: page_result_Inl)
qed

lemma records_result_fails:
  assumes "\<not> ALOGOLIA_SKIP_ON_ERROR p" "d \<in> set fms" "indexable d" "page_failure p d = Some c"
  shows "\<exists>e. records_result p fms = Inl e"
proof -
  from assms have "page_result p d = Inl (ProcessingError (slug d) c)"
    by (simp add: page_result_Inl)
  moreover from assms(2,3) have "d \<in> set (filter indexable fms)"
    by simp
  then have "page_result p d \<in> page_result p ` set (filter indexable fms)"
    by (rule imageI)
  ultimately have "Inl (ProcessingError (slug d) c) \<in> set (map (page_result p) (filter indexable fms))"
    by (simp only: set_map)
  then obtain e where "Promise_all (map (page_result p) (filter indexable fms)) = Inl e"
    using Promise_all_rejects [of "ProcessingError (slug d) c"] by blast
  then show ?thesis
    by (simp add: records_result_def)
qed

text \<open>After a successful run the index holds exactly the identifiers the save returned.\<close>

lemma identifiers_after_sync:
  assumes ok: "fst (script p svc s) = Inr ()"
    and r: "records_result p (pageFrontMatters p) = Inr records"
  shows "identifiers (remote (snd (script p svc s))) =
           set (fst (index_saveObjects svc records (remote s)))"
proof -
  let ?ids = "fst (index_saveObjects svc records (remote s))"
  let ?idx = "snd (index_saveObjects svc records (remote s))"
  let ?stale = "recordsToDelete svc records (remote s)"
  have conf: "configured p"
    using ok by (rule script_success_configured)
  from ok r conf have av: "\<not> unavailable svc Browse" "\<not> unavailable svc Save"
    "?stale = [] \<or> \<not> unavailable svc Delete"
    by (auto simp: script_result split: if_splits)
  have dom: "identifiers ?idx = identifiers (remote s) \<union> set ?ids"
    by (rule identifiers_saveObjects)
  have st: "set ?stale = identifiers (remote s) - set ?ids"
    by (rule set_recordsToDelete)
  show ?thesis
  proof (cases "?stale = []")
    case True
    with st have "identifiers (remote s) \<subseteq> set ?ids" by auto
    with dom r av True conf show ?thesis
      by (auto simp: script_remote)
  next
    case False
    with av conf have "remote (snd (script p svc s)) = snd (index_deleteObjects ?stale ?idx)"
      by (simp add: script_remote r)
    with dom st show ?thesis
      by (auto simp: identifiers_deleteObjects)
  qed
qed

lemma script_success_records:
  "fst (script p svc s) = Inr () \<Longrightarrow> \<exists>records. records_result p (pageFrontMatters p) = Inr records"
  using script_success_configured [of p svc s]
  by (auto simp: script_result split: sum.splits)

subsection \<open>Reconciliation\<close>

text \<open>
  Claim C1. For every run that completes successfully, the set of identifiers present in
  the remote index afterwards is exactly the set of identifiers the bulk save returned for
  the records generated from the current eligible documents: every identifier returned by
  the save remains, and every identifier that existed before the run and is not among the
  saved ones is gone.
\<close>

theorem C1_index_holds_saved_identifiers:
  assumes "fst (script p svc s) = Inr ()"
  shows "\<exists>records ids.
           fst (generateAlogliaRecords p (pageFrontMatters p) s) = Inr records \<and>
           ids = fst (index_saveObjects svc records (remote s)) \<and>
           SaveObjects records \<in> set (trace (snd (script p svc s))) \<and>
           identifiers (remote (snd (script p svc s))) = set ids \<and>
           (\<forall>i \<in> set ids. i \<in> identifiers (remote (snd (script p svc s)))) \<and>
           (\<forall>i \<in> identifiers (remote s). i \<notin> set ids \<longrightarrow>
              i \<notin> identifiers (remote (snd (script p svc s))))"
proof -
  from assms obtain records where r: "records_result p (pageFrontMatters p) = Inr records"
    using script_success_records by blast
  have conf: "configured p"
    using assms by (rule script_success_configured)
  have ids: "identifiers (remote (snd (script p svc s))) =
      set (fst (index_saveObjects svc records (remote s)))"
    using assms r by (rule identifiers_after_sync)
  from assms r conf have "\<not> unavailable svc Browse"
    by (auto simp: script_result split: if_splits)
  with r conf have "SaveObjects records \<in> set (remote_calls (trace (snd (script p svc s))))"
    by (simp add: script_remote_calls)
  then have "SaveObjects records \<in> set (trace (snd (script p svc s)))"
    by (simp add: remote_calls_def)
  with r ids show ?thesis
    by (simp add: generateAlogliaRecords_eq)
qed

theorem C1_witness:
  "fst (script ex_platform ex_service ex_state) = Inr () \<and>
   identifiers (remote ex_state) = {''a-old'', ''c''} \<and>
   identifiers (remote (snd (script ex_platform ex_service ex_state))) = {''a-1''}"
proof -
  have ok: "fst (script ex_platform ex_service ex_state) = Inr ()"
    by code_simp
  have gen: "fst (generateAlogliaRecords ex_platform (pageFrontMatters ex_platform) ex_state) =
      Inr [\<lparr>objectID = Some ''a-1'', attributes = ''/a/''\<rparr>]"
    by code_simp
  have ids: "fst (index_saveObjects ex_service [\<lparr>objectID = Some ''a-1'', attributes = ''/a/''\<rparr>]
      (remote ex_state)) = [''a-1'']"
    by code_simp
  have before: "identifiers (remote ex_state) = {''a-old'', ''c''}"
    by (auto simp: identifiers_def ex_state_def)
  from C1_index_holds_saved_identifiers [OF ok] gen ids
  have "identifiers (remote (snd (script ex_platform ex_service ex_state))) = {''a-1''}"
    by auto
  with ok before show ?thesis by simp
qed

subsection \<open>Order of the remote steps\<close>

text \<open>
  Claim C2, as stated: the driver first uploads the records, then enumerates the
  identifiers present in the index, and finally deletes the difference. The script calls
  \<open>fetchExistingRecordIds\<close> before \<open>saveObjects\<close>: on the concrete run the calls of the
  index client are browse, save, delete, in that order.
\<close>

theorem C2_counterexample:
  "remote_calls (trace (snd (script ex_platform ex_service ex_state))) =
     [BrowseObjects,
      SaveObjects [\<lparr>objectID = Some ''a-1'', attributes = ''/a/''\<rparr>],
      DeleteObjects [''a-old'', ''c'']] \<and>
   remote_calls (trace (snd (script ex_platform ex_service ex_state))) \<noteq>
     [SaveObjects [\<lparr>objectID = Some ''a-1'', attributes = ''/a/''\<rparr>],
      BrowseObjects,
      DeleteObjects [''a-old'', ''c'']]"
  by code_simp

text \<open>
  Claim C2, amended. In every run that completes successfully the driver first enumerates
  the identifiers present in the index, then uploads all collected records in bulk, and
  finally bulk-deletes the enumerated identifiers that the upload did not return, when
  there are any; the identifiers deleted are those the index held before the upload minus
  the newly saved ones.
\<close>

theorem C2_enumerate_upload_delete:
  assumes "fst (script p svc s) = Inr ()"
  shows "\<exists>records.
           fst (generateAlogliaRecords p (pageFrontMatters p) s) = Inr records \<and>
           remote_calls (trace (snd (script p svc s))) =
             remote_calls (trace s) @
             BrowseObjects # SaveObjects records #
             (if recordsToDelete svc records (remote s) = [] then []
              else [DeleteObjects (recordsToDelete svc records (remote s))]) \<and>
           set (recordsToDelete svc records (remote s)) =
             identifiers (remote s) - set (fst (index_saveObjects svc records (remote s)))"
proof -
  from assms obtain records where r: "records_result p (pageFrontMatters p) = Inr records"
    using script_success_records by blast
  have conf: "configured p"
    using assms by (rule script_success_configured)
  from assms r conf have av: "\<not> unavailable svc Browse" "\<not> unavailable svc Save"
    by (auto simp: script_result split: if_splits)
  from r conf av have "remote_calls (trace (snd (script p svc s))) =
      remote_calls (trace s) @
      BrowseObjects # SaveObjects records #
      (if recordsToDelete svc records (remote s) = [] then []
       else [DeleteObjects (recordsToDelete svc records (remote s))])"
    by (simp add: script_remote_calls)
  with r show ?thesis
    by (simp add: generateAlogliaRecords_eq set_recordsToDelete)
qed

theorem C2_witness:
  "fst (script ex_platform ex_service ex_state) = Inr () \<and>
   (\<exists>records.
      remote_calls (trace (snd (script ex_platform ex_service ex_state))) =
        remote_calls (trace ex_state) @
        BrowseObjects # SaveObjects records #
        (if recordsToDelete ex_service records (remote ex_state) = [] then []
         else [DeleteObjects (recordsToDelete ex_service records (remote ex_state))]))"
proof -
  have ok: "fst (script ex_platform ex_service ex_state) = Inr ()"
    by code_simp
  from C2_enumerate_upload_delete [OF ok] ok show ?thesis
    by blast
qed

subsection \<open>Per-page failures\<close>

lemma script_trace:
  "configured p \<Longrightarrow>
     \<exists>pre rest. trace (snd (script p svc s)) =
       trace s @ pre @ records_events p (pageFrontMatters p) @ rest"
proof -
  assume conf: "configured p"
  let ?s0 = "log [CreateClient (the (ALGOLIA_APP_ID p)) (the (ALGOLIA_API_KEY p)),
               InitIndex (the (DOCS_INDEX_NAME p))] s"
  obtain rest where "trace (snd (indexAndUpload p svc (the (DOCS_INDEX_NAME p)) ?s0)) =
      trace ?s0 @ LoadFrontMatter # records_events p (pageFrontMatters p) @ rest"
    using indexAndUpload_trace by blast
  then have "trace (snd (script p svc s)) =
      trace s @ [CreateClient (the (ALGOLIA_APP_ID p)) (the (ALGOLIA_API_KEY p)),
                 InitIndex (the (DOCS_INDEX_NAME p)), LoadFrontMatter] @
      records_events p (pageFrontMatters p) @ rest"
    by (simp add: script_configured [OF conf] log_simps)
  then show ?thesis by blast
qed

lemma page_events_in_records_events:
  "d \<in> set fms \<Longrightarrow> indexable d \<Longrightarrow> set (page_events p d) \<subseteq> set (records_events p fms)"
  by (auto simp: records_events_def)

text \<open>
  Claim C3. When the skip-on-error flag is disabled, a failure processing any single
  document (a missing artifact, or a generator that throws) aborts the whole run before
  any remote call: the run ends with an error, the index client is not called, nothing
  is uploaded, nothing is deleted and the remote index is unchanged.
\<close>

theorem C3_failure_aborts_before_remote_calls:
  assumes "\<not> ALOGOLIA_SKIP_ON_ERROR p"
    and "d \<in> set (pageFrontMatters p)" and "indexable d" and "page_failure p d = Some c"
  shows "(\<exists>e. fst (script p svc s) = Inl e) \<and>
         (configured p \<longrightarrow>
            (\<exists>d' c'. d' \<in> set (pageFrontMatters p) \<and> page_failure p d' = Some c' \<and>
               fst (script p svc s) = Inl (ProcessingError (slug d') c'))) \<and>
         remote (snd (script p svc s)) = remote s \<and>
         remote_calls (trace (snd (script p svc s))) = remote_calls (trace s)"
proof (cases "configured p")
  case False
  then obtain v where "script p svc s = (Inl (MissingEnvVar v), s)"
    using script_unconfigured by blast
  with False show ?thesis by simp
next
  case True
  from assms obtain e where e: "records_result p (pageFrontMatters p) = Inl e"
    using records_result_fails by blast
  then obtain d' c' where "d' \<in> set (pageFrontMatters p)" "page_failure p d' = Some c'"
    "e = ProcessingError (slug d') c'"
    using records_result_Inl by blast
  with True e show ?thesis
    by (auto simp: script_result script_remote script_remote_calls)
qed

theorem C3_witness:
  "\<not> ALOGOLIA_SKIP_ON_ERROR ex_platform_missing \<and>
   page_m \<in> set (pageFrontMatters ex_platform_missing) \<and> indexable page_m \<and>
   page_failure ex_platform_missing page_m = Some (ENOENT ''/repo/.next/server/app/m.html'') \<and>
   (\<exists>e. fst (script ex_platform_missing ex_service ex_state) = Inl e) \<and>
   remote (snd (script ex_platform_missing ex_service ex_state)) = remote ex_state \<and>
   remote_calls (trace (snd (script ex_platform_missing ex_service ex_state))) =
     remote_calls (trace ex_state)"
proof -
  have h1: "\<not> ALOGOLIA_SKIP_ON_ERROR ex_platform_missing"
    by code_simp
  have h2: "page_m \<in> set (pageFrontMatters ex_platform_missing)"
    by code_simp
  have h3: "indexable page_m"
    by code_simp
  have h4: "page_failure ex_platform_missing page_m = Some (ENOENT ''/repo/.next/server/app/m.html'')"
    by code_simp
  from C3_failure_aborts_before_remote_calls [OF h1 h2 h3 h4, of ex_service ex_state] h1 h2 h3 h4
  show ?thesis by blast
qed

text \<open>
  Claim C4. When the skip-on-error flag is enabled, a document whose processing fails
  contributes zero records, its error is written to the console, and the records of the
  other documents are still collected and uploaded: the upload carries the records of
  every eligible page, and it takes place as soon as the enumeration of the index
  succeeds.
\<close>

theorem C4_failure_skipped_and_logged:
  assumes "ALOGOLIA_SKIP_ON_ERROR p" and "page_failure p d = Some c"
  shows "fst (getRecords p d s) = Inr [] \<and>
         ConsoleError (ProcessingError (slug d) c) \<in> set (trace (snd (getRecords p d s))) \<and>
         page_records p d = [] \<and>
         fst (generateAlogliaRecords p fms s) =
           Inr (concat (map (page_records p) (filter indexable fms))) \<and>
         (configured p \<and> d \<in> set (pageFrontMatters p) \<and> indexable d \<longrightarrow>
            ConsoleError (ProcessingError (slug d) c) \<in> set (trace (snd (script p svc s)))) \<and>
         (configured p \<and> \<not> unavailable svc Browse \<longrightarrow>
            SaveObjects (concat (map (page_records p) (filter indexable (pageFrontMatters p))))
              \<in> set (trace (snd (script p svc s))))"
proof -
  have rec: "page_records p d = []"
    using assms(2)
    by (auto simp: page_failure_def page_records_def split: option.splits sum.splits)
  have res: "fst (getRecords p d s) = Inr []"
    using assms rec by (simp add: getRecords_eq page_result_skip)
  have ev: "ConsoleError (ProcessingError (slug d) c) \<in> set (page_events p d)"
    using assms by (simp add: page_events_def)
  then have logged: "ConsoleError (ProcessingError (slug d) c) \<in> set (trace (snd (getRecords p d s)))"
    by (simp add: getRecords_eq log_simps)
  have gen: "records_result p fms = Inr (concat (map (page_records p) (filter indexable fms)))" for fms
    using assms(1) by (rule records_result_skip)
  have run_logged: "ConsoleError (ProcessingError (slug d) c) \<in> set (trace (snd (script p svc s)))"
    if "configured p" "d \<in> set (pageFrontMatters p)" "indexable d"
  proof -
    from that(1) obtain pre rest where "trace (snd (script p svc s)) =
        trace s @ pre @ records_events p (pageFrontMatters p) @ rest"
      using script_trace by blast
    moreover have "ConsoleError (ProcessingError (slug d) c) \<in> set (records_events p (pageFrontMatters p))"
      using page_events_in_records_events [OF that(2,3)] ev by blast
    ultimately show ?thesis by simp
  qed
  have uploaded: "SaveObjects (concat (map (page_records p) (filter indexable (pageFrontMatters p))))
      \<in> set (trace (snd (script p svc s)))"
    if "configured p" "\<not> unavailable svc Browse"
  proof -
    from that have "SaveObjects (concat (map (page_records p) (filter indexable (pageFrontMatters p))))
        \<in> set (remote_calls (trace (snd (script p svc s))))"
      by (simp add: script_remote_calls gen)
    then show ?thesis by (simp add: remote_calls_def)
  qed
  from rec res logged gen run_logged uploaded show ?thesis
    by (simp add: generateAlogliaRecords_eq)
qed

theorem C4_witness:
  "ALOGOLIA_SKIP_ON_ERROR ex_platform_skip \<and>
   page_failure ex_platform_skip page_m = Some (ENOENT ''/repo/.next/server/app/m.html'') \<and>
   fst (getRecords ex_platform_skip page_m ex_state) = Inr [] \<and>
   ConsoleError (ProcessingError ''m'' (ENOENT ''/repo/.next/server/app/m.html''))
     \<in> set (trace (snd (script ex_platform_skip ex_service ex_state))) \<and>
   SaveObjects [\<lparr>objectID = Some ''a-1'', attributes = ''/a/''\<rparr>]
     \<in> set (trace (snd (script ex_platform_skip ex_service ex_state)))"
proof -
  have h1: "ALOGOLIA_SKIP_ON_ERROR ex_platform_skip"
    by code_simp
  have h2: "page_failure ex_platform_skip page_m = Some (ENOENT ''/repo/.next/server/app/m.html'')"
    by code_simp
  have c: "configured ex_platform_skip" "page_m \<in> set (pageFrontMatters ex_platform_skip)"
    "indexable page_m" "\<not> unavailable ex_service Browse" "slug page_m = ''m''"
    by code_simp+
  have recs: "concat (map (page_records ex_platform_skip)
      (filter indexable (pageFrontMatters ex_platform_skip))) =
      [\<lparr>objectID = Some ''a-1'', attributes = ''/a/''\<rparr>]"
    by code_simp
  from C4_failure_skipped_and_logged [OF h1 h2, of ex_state _ ex_service] h1 h2 c recs
  show ?thesis by simp
qed

subsection \<open>Which pages reach the generator\<close>

lemma generator_calls_simps:
  "generator_calls [] = []"
  "generator_calls (e # es) =
     (if is_generator_call e then e # generator_calls es else generator_calls es)"
  "generator_calls (es @ es') = generator_calls es @ generator_calls es'"
  by (simp_all add: generator_calls_def)

lemma generator_calls_page_events: "generator_calls (page_events p d) = generator_call p d"
  by (simp add: page_events_def generator_call_def generator_calls_simps
      split: option.splits)

lemma generator_calls_concat_page_events:
  "generator_calls (concat (map (page_events p) ds)) = concat (map (generator_call p) ds)"
  by (induction ds) (simp_all add: generator_calls_simps generator_calls_page_events)

lemma concat_generator_call:
  "concat (map (generator_call p) ds) =
     map (\<lambda>d. HtmlToAlgoliaRecord (the (files p (htmlFile p d))) (page_meta p d) ''#main'')
       (filter (\<lambda>d. files p (htmlFile p d) \<noteq> None) ds)"
  by (induction ds) (auto simp: generator_call_def)

lemma concat_page_records_present:
  "concat (map (page_records p) ds) =
     concat (map (page_records p) (filter (\<lambda>d. files p (htmlFile p d) \<noteq> None) ds))"
  by (induction ds) (auto simp: page_records_def)

lemma generator_call_in_page_events:
  "HtmlToAlgoliaRecord html m selector \<in> set (page_events p d) \<Longrightarrow>
     files p (htmlFile p d) = Some html \<and> m = page_meta p d \<and> selector = ''#main''"
  by (auto simp: page_events_def generator_call_def split: option.splits if_splits)

text \<open>
  Claim C5. For every input list of document descriptors, a document that is marked
  draft, marked no-index, or lacks a title is never passed to the record generator: every
  call of the generator made by \<open>generateAlogliaRecords\<close> is for a document of the list
  that is not draft, not no-index and has a title.
\<close>

theorem C5_generator_only_for_indexable_pages:
  assumes "HtmlToAlgoliaRecord html m selector \<in> set (trace (snd (generateAlogliaRecords p fms s)))"
    and "HtmlToAlgoliaRecord html m selector \<notin> set (trace s)"
  shows "\<exists>d \<in> set fms.
           \<not> truthy_bool (draft d) \<and> \<not> truthy_bool (noindex d) \<and> truthy_string (title d) \<and>
           files p (htmlFile p d) = Some html \<and> m = page_meta p d \<and> selector = ''#main''"
proof -
  from assms have "HtmlToAlgoliaRecord html m selector \<in> set (records_events p fms)"
    by (simp add: generateAlogliaRecords_eq log_simps)
  then obtain d where d: "d \<in> set fms" "indexable d"
    and ev: "HtmlToAlgoliaRecord html m selector \<in> set (page_events p d)"
    by (auto simp: records_events_def)
  from ev have "files p (htmlFile p d) = Some html \<and> m = page_meta p d \<and> selector = ''#main''"
    by (rule generator_call_in_page_events)
  with d show ?thesis
    by (auto simp: indexable_def)
qed

theorem C5_witness:
  "HtmlToAlgoliaRecord ''a'' (page_meta ex_platform page_a) ''#main''
     \<in> set (trace (snd (generateAlogliaRecords ex_platform [page_a, page_b] ex_state))) \<and>
   HtmlToAlgoliaRecord ''a'' (page_meta ex_platform page_a) ''#main'' \<notin> set (trace ex_state) \<and>
   truthy_bool (draft page_b) \<and>
   (\<exists>d \<in> set [page_a, page_b].
      \<not> truthy_bool (draft d) \<and> \<not> truthy_bool (noindex d) \<and> truthy_string (title d) \<and>
      files ex_platform (htmlFile ex_platform d) = Some ''a'')"
proof -
  have h1: "HtmlToAlgoliaRecord ''a'' (page_meta ex_platform page_a) ''#main''
      \<in> set (trace (snd (generateAlogliaRecords ex_platform [page_a, page_b] ex_state)))"
    by code_simp
  have h2: "HtmlToAlgoliaRecord ''a'' (page_meta ex_platform page_a) ''#main'' \<notin> set (trace ex_state)"
    by code_simp
  have h3: "truthy_bool (draft page_b)"
    by code_simp
  from C5_generator_only_for_indexable_pages [OF h1 h2] h1 h2 h3 show ?thesis
    by blast
qed

text \<open>
  Claim C6. For every document set (in particular one with at least one non-draft,
  non-noindex, titled document whose artifact is on disk) the record generator is invoked
  exactly once for each such document, in the order of the list, and the record list that
  is uploaded is the concatenation of the generator's results for these documents (a
  document whose generation is skipped after a failure contributes none). The upload takes
  place whenever the records were collected and the enumeration of the index succeeded.
\<close>

theorem C6_generator_once_per_page_and_upload_is_concatenation:
  "generator_calls (trace (snd (generateAlogliaRecords p fms s))) =
     generator_calls (trace s) @
     map (\<lambda>d. HtmlToAlgoliaRecord (the (files p (htmlFile p d))) (page_meta p d) ''#main'')
       (filter (\<lambda>d. indexable d \<and> files p (htmlFile p d) \<noteq> None) fms) \<and>
   (\<forall>records. fst (generateAlogliaRecords p fms s) = Inr records \<longrightarrow>
      records = concat (map (page_records p)
        (filter (\<lambda>d. indexable d \<and> files p (htmlFile p d) \<noteq> None) fms))) \<and>
   (\<forall>records. SaveObjects records \<in> set (trace (snd (script p svc s))) \<and>
        SaveObjects records \<notin> set (trace s) \<longrightarrow>
      records = concat (map (page_records p)
        (filter (\<lambda>d. indexable d \<and> files p (htmlFile p d) \<noteq> None) (pageFrontMatters p)))) \<and>
   (configured p \<and> (\<exists>records. fst (generateAlogliaRecords p (pageFrontMatters p) s) = Inr records) \<and>
      \<not> unavailable svc Browse \<longrightarrow>
      SaveObjects (concat (map (page_records p)
        (filter (\<lambda>d. indexable d \<and> files p (htmlFile p d) \<noteq> None) (pageFrontMatters p))))
      \<in> set (trace (snd (script p svc s))))"
proof -
  let ?present = "\<lambda>d. files p (htmlFile p d) \<noteq> None"
  have filt: "filter ?present (filter indexable ds) = filter (\<lambda>d. indexable d \<and> ?present d) ds" for ds
    by (simp add: conj_commute)
  have calls: "generator_calls (trace (snd (generateAlogliaRecords p fms s))) =
      generator_calls (trace s) @
      map (\<lambda>d. HtmlToAlgoliaRecord (the (files p (htmlFile p d))) (page_meta p d) ''#main'')
        (filter (\<lambda>d. indexable d \<and> ?present d) fms)"
    by (simp add: generateAlogliaRecords_eq log_simps generator_calls_simps records_events_def
        generator_calls_concat_page_events concat_generator_call filt)
  have recs: "records = concat (map (page_records p) (filter (\<lambda>d. indexable d \<and> ?present d) ds))"
    if "records_result p ds = Inr records" for records ds
    using records_result_Inr [OF that] concat_page_records_present [of p "filter indexable ds"]
    by (simp add: filt)
  have only: "records = concat (map (page_records p)
      (filter (\<lambda>d. indexable d \<and> ?present d) (pageFrontMatters p)))"
    if "SaveObjects records \<in> set (trace (snd (script p svc s)))"
      "SaveObjects records \<notin> set (trace s)" for records
  proof (cases "configured p")
    case False
    then obtain v where "script p svc s = (Inl (MissingEnvVar v), s)"
      using script_unconfigured by blast
    with that show ?thesis by simp
  next
    case True
    from that have "SaveObjects records \<in> set (remote_calls (trace (snd (script p svc s))))"
      "SaveObjects records \<notin> set (remote_calls (trace s))"
      by (simp_all add: remote_calls_def)
    with True have "records_result p (pageFrontMatters p) = Inr records"
      by (auto simp: script_remote_calls split: sum.splits if_splits)
    then show ?thesis by (rule recs)
  qed
  have uploaded: "SaveObjects (concat (map (page_records p)
      (filter (\<lambda>d. indexable d \<and> ?present d) (pageFrontMatters p))))
      \<in> set (trace (snd (script p svc s)))"
    if "configured p" "records_result p (pageFrontMatters p) = Inr records"
      "\<not> unavailable svc Browse" for records
  proof -
    from that have "SaveObjects records \<in> set (remote_calls (trace (snd (script p svc s))))"
      by (simp add: script_remote_calls)
    then have "SaveObjects records \<in> set (trace (snd (script p svc s)))"
      by (simp add: remote_calls_def)
    with recs [OF that(2)] show ?thesis by simp
  qed
  from calls recs only uploaded show ?thesis
    by (simp add: generateAlogliaRecords_eq) blast
qed

theorem C6_witness:
  "generator_calls (trace (snd (generateAlogliaRecords ex_platform_missing
       (pageFrontMatters ex_platform_missing) ex_state))) =
     [HtmlToAlgoliaRecord ''a'' (page_meta ex_platform_missing page_a) ''#main''] \<and>
   configured ex_platform \<and>
   fst (generateAlogliaRecords ex_platform (pageFrontMatters ex_platform) ex_state) =
     Inr [\<lparr>objectID = Some ''a-1'', attributes = ''/a/''\<rparr>] \<and>
   \<not> unavailable ex_service Browse \<and>
   SaveObjects [\<lparr>objectID = Some ''a-1'', attributes = ''/a/''\<rparr>]
     \<in> set (trace (snd (script ex_platform ex_service ex_state)))"
proof -
  have filt: "filter (\<lambda>d. indexable d \<and> files ex_platform_missing (htmlFile ex_platform_missing d) \<noteq> None)
      (pageFrontMatters ex_platform_missing) = [page_a]"
    by code_simp
  have html: "the (files ex_platform_missing (htmlFile ex_platform_missing page_a)) = ''a''"
    by code_simp
  have tr: "generator_calls (trace ex_state) = []"
    by code_simp
  have c: "configured ex_platform" "\<not> unavailable ex_service Browse"
    by code_simp+
  have gen: "fst (generateAlogliaRecords ex_platform (pageFrontMatters ex_platform) ex_state) =
      Inr [\<lparr>objectID = Some ''a-1'', attributes = ''/a/''\<rparr>]"
    by code_simp
  have recs: "concat (map (page_records ex_platform)
      (filter (\<lambda>d. indexable d \<and> files ex_platform (htmlFile ex_platform d) \<noteq> None)
        (pageFrontMatters ex_platform))) = [\<lparr>objectID = Some ''a-1'', attributes = ''/a/''\<rparr>]"
    by code_simp
  note thm1 = C6_generator_once_per_page_and_upload_is_concatenation
      [of ex_platform_missing "pageFrontMatters ex_platform_missing" ex_state ex_service,
       THEN conjunct1]
  note thm2 = C6_generator_once_per_page_and_upload_is_concatenation
      [of ex_platform "pageFrontMatters ex_platform" ex_state ex_service,
       THEN conjunct2, THEN conjunct2, THEN conjunct2]
  have calls: "generator_calls (trace (snd (generateAlogliaRecords ex_platform_missing
       (pageFrontMatters ex_platform_missing) ex_state))) =
     [HtmlToAlgoliaRecord ''a'' (page_meta ex_platform_missing page_a) ''#main'']"
    using thm1 unfolding filt tr by (simp add: html)
  have up: "SaveObjects [\<lparr>objectID = Some ''a-1'', attributes = ''/a/''\<rparr>]
     \<in> set (trace (snd (script ex_platform ex_service ex_state)))"
    using thm2 c gen unfolding recs by blast
  from calls up c gen show ?thesis by simp
qed

text \<open>
  Claim C7. If any of the three required settings (application identifier, access key,
  index name) is absent, the run ends at once with a fatal error: the state is returned
  as it was, so no client was constructed, no document was read and no remote call was
  made.
\<close>

theorem C7_missing_configuration_is_fatal:
  assumes "ALGOLIA_APP_ID p = None \<or> ALGOLIA_API_KEY p = None \<or> DOCS_INDEX_NAME p = None"
  shows "\<exists>v \<in> {''ALGOLIA_APP_ID'', ''ALGOLIA_API_KEY'', ''DOCS_INDEX_NAME''}.
           script p svc s = (Inl (MissingEnvVar v), s)"
  using assms by (auto simp: script_def truthy_string_def split: option.splits)

theorem C7_witness:
  "ALGOLIA_API_KEY ex_platform_unconfigured = None \<and>
   (\<exists>v \<in> {''ALGOLIA_APP_ID'', ''ALGOLIA_API_KEY'', ''DOCS_INDEX_NAME''}.
      script ex_platform_unconfigured ex_service ex_state = (Inl (MissingEnvVar v), ex_state))"
proof -
  have h: "ALGOLIA_API_KEY ex_platform_unconfigured = None"
    by code_simp
  then have "ALGOLIA_APP_ID ex_platform_unconfigured = None \<or>
      ALGOLIA_API_KEY ex_platform_unconfigured = None \<or>
      DOCS_INDEX_NAME ex_platform_unconfigured = None"
    by simp
  from C7_missing_configuration_is_fatal [OF this] h show ?thesis
    by simp
qed

subsection \<open>Running twice\<close>

lemma saved_ids_own:
  "\<forall>r \<in> set records. objectID r \<noteq> None \<Longrightarrow>
     fst (index_saveObjects svc records idx) = map (\<lambda>r. the (objectID r)) records"
  by (induction records arbitrary: idx) (auto simp: Let_def case_prod_beta)

lemma page_records_identified:
  assumes "records_carry_identifiers p" and "r \<in> set (page_records p d)"
  shows "objectID r \<noteq> None"
proof (cases "files p (htmlFile p d)")
  case None
  with assms(2) show ?thesis by (simp add: page_records_def)
next
  case (Some html)
  show ?thesis
  proof (cases "htmlToAlgoliaRecord p html (page_meta p d) ''#main''")
    case (Inl msg)
    with Some assms(2) show ?thesis by (simp add: page_records_def)
  next
    case (Inr records)
    with Some assms(2) have "r \<in> set records"
      by (simp add: page_records_def)
    with assms(1) Inr show ?thesis
      unfolding records_carry_identifiers_def by blast
  qed
qed

lemma records_result_identified:
  assumes "records_carry_identifiers p" and "records_result p fms = Inr records"
  shows "\<forall>r \<in> set records. objectID r \<noteq> None"
proof
  fix r
  assume "r \<in> set records"
  moreover have "records = concat (map (page_records p) (filter indexable fms))"
    using assms(2) by (rule records_result_Inr)
  ultimately obtain d where "r \<in> set (page_records p d)"
    by auto
  with assms(1) show "objectID r \<noteq> None"
    by (rule page_records_identified)
qed

text \<open>The identifiers of the index after a run that reached the save.\<close>

lemma identifiers_after_script:
  assumes conf: "configured p"
    and r: "records_result p (pageFrontMatters p) = Inr records"
    and av: "\<not> unavailable svc Browse" "\<not> unavailable svc Save"
  shows "identifiers (remote (snd (script p svc t))) =
           (if unavailable svc Delete
            then identifiers (remote t) \<union> set (fst (index_saveObjects svc records (remote t)))
            else set (fst (index_saveObjects svc records (remote t))))"
proof -
  let ?ids = "fst (index_saveObjects svc records (remote t))"
  let ?idx = "snd (index_saveObjects svc records (remote t))"
  let ?stale = "recordsToDelete svc records (remote t)"
  have dom: "identifiers ?idx = identifiers (remote t) \<union> set ?ids"
    by (rule identifiers_saveObjects)
  have st: "set ?stale = identifiers (remote t) - set ?ids"
    by (rule set_recordsToDelete)
  show ?thesis
  proof (cases "?stale = [] \<or> unavailable svc Delete")
    case True
    with conf r av have rem: "remote (snd (script p svc t)) = ?idx"
      by (simp add: script_remote)
    show ?thesis
    proof (cases "unavailable svc Delete")
      case True
      with rem dom show ?thesis by simp
    next
      case False
      with \<open>?stale = [] \<or> unavailable svc Delete\<close> have "?stale = []" by simp
      with st have "identifiers (remote t) \<subseteq> set ?ids" by auto
      with rem dom False show ?thesis by auto
    qed
  next
    case False
    with conf r av have "remote (snd (script p svc t)) = snd (index_deleteObjects ?stale ?idx)"
      by (simp add: script_remote)
    with dom st False show ?thesis
      by (auto simp: identifiers_deleteObjects)
  qed
qed

lemma identifiers_second_run:
  assumes own: "records_carry_identifiers p"
  shows "identifiers (remote (snd (script p svc (snd (script p svc s))))) =
           identifiers (remote (snd (script p svc s)))"
proof (cases "configured p")
  case False
  then obtain v where "script p svc s = (Inl (MissingEnvVar v), s)"
    using script_unconfigured by blast
  then show ?thesis by simp
next
  case conf: True
  show ?thesis
  proof (cases "records_result p (pageFrontMatters p)")
    case (Inl e)
    with conf show ?thesis by (simp add: script_remote)
  next
    case (Inr records)
    show ?thesis
    proof (cases "unavailable svc Browse \<or> unavailable svc Save")
      case True
      with conf Inr show ?thesis by (simp add: script_remote)
    next
      case False
      then have av: "\<not> unavailable svc Browse" "\<not> unavailable svc Save" by simp_all
      have ids: "fst (index_saveObjects svc records idx) = map (\<lambda>r. the (objectID r)) records" for idx
        using records_result_identified [OF own Inr] by (rule saved_ids_own)
      show ?thesis
        by (simp add: identifiers_after_script [OF conf Inr av] ids) 
    qed
  qed
qed

text \<open>
  Claim C8. Running the synchronization twice in succession with no change to the
  document set is idempotent: whatever the outcome of the first run, the second run
  leaves the identifier set of the remote index as the first run left it (nothing is
  deleted from it and nothing is added to it); and after a first run that completed,
  the second run completes too and calls the index client to enumerate and to save only,
  never to delete. The records are those of the specification's data model: each carries
  its identifier.
\<close>

theorem C8_second_run_changes_nothing:
  assumes "records_carry_identifiers p"
  shows "identifiers (remote (snd (script p svc (snd (script p svc s))))) =
           identifiers (remote (snd (script p svc s))) \<and>
         (fst (script p svc s) = Inr () \<longrightarrow>
            fst (script p svc (snd (script p svc s))) = Inr () \<and>
            (\<exists>records.
               fst (generateAlogliaRecords p (pageFrontMatters p) s) = Inr records \<and>
               recordsToDelete svc records (remote (snd (script p svc s))) = [] \<and>
               remote_calls (trace (snd (script p svc (snd (script p svc s))))) =
                 remote_calls (trace (snd (script p svc s))) @
                 [BrowseObjects, SaveObjects records]))"
proof -
  let ?s1 = "snd (script p svc s)"
  have second: "fst (script p svc ?s1) = Inr () \<and>
      (\<exists>records.
         fst (generateAlogliaRecords p (pageFrontMatters p) s) = Inr records \<and>
         recordsToDelete svc records (remote ?s1) = [] \<and>
         remote_calls (trace (snd (script p svc ?s1))) =
           remote_calls (trace ?s1) @ [BrowseObjects, SaveObjects records])"
    if ok: "fst (script p svc s) = Inr ()"
  proof -
    from ok obtain records where r: "records_result p (pageFrontMatters p) = Inr records"
      using script_success_records by blast
    have conf: "configured p"
      using ok by (rule script_success_configured)
    from ok r conf have av: "\<not> unavailable svc Browse" "\<not> unavailable svc Save"
      by (auto simp: script_result split: if_splits)
    have ids: "fst (index_saveObjects svc records idx) = map (\<lambda>r. the (objectID r)) records" for idx
      using records_result_identified [OF assms r] by (rule saved_ids_own)
    have "identifiers (remote ?s1) = set (fst (index_saveObjects svc records (remote s)))"
      using ok r by (rule identifiers_after_sync)
    then have "identifiers (remote ?s1) = set (fst (index_saveObjects svc records (remote ?s1)))"
      by (simp add: ids)
    then have "set (recordsToDelete svc records (remote ?s1)) = {}"
      by (simp add: set_recordsToDelete)
    then have stale: "recordsToDelete svc records (remote ?s1) = []"
      by simp
    from conf r av stale have res: "fst (script p svc ?s1) = Inr ()"
      by (simp add: script_result)
    from conf r av stale have "remote_calls (trace (snd (script p svc ?s1))) =
        remote_calls (trace ?s1) @ [BrowseObjects, SaveObjects records]"
      by (simp add: script_remote_calls)
    with res stale r show ?thesis
      by (simp add: generateAlogliaRecords_eq)
  qed
  from identifiers_second_run [OF assms] second show ?thesis
    by blast
qed

theorem C8_witness:
  "records_carry_identifiers ex_platform \<and>
   fst (script ex_platform ex_service ex_state) = Inr () \<and>
   fst (script ex_platform ex_service (snd (script ex_platform ex_service ex_state))) = Inr () \<and>
   identifiers (remote (snd (script ex_platform ex_service
       (snd (script ex_platform ex_service ex_state))))) =
     identifiers (remote (snd (script ex_platform ex_service ex_state))) \<and>
   remote_calls (trace (snd (script ex_platform ex_service
       (snd (script ex_platform ex_service ex_state))))) =
     remote_calls (trace (snd (script ex_platform ex_service ex_state))) @
     [BrowseObjects, SaveObjects [\<lparr>objectID = Some ''a-1'', attributes = ''/a/''\<rparr>]]"
proof -
  have own: "records_carry_identifiers ex_platform"
    by (auto simp: records_carry_identifiers_def ex_platform_def ex_generator_def
        split: if_splits)
  have ok: "fst (script ex_platform ex_service ex_state) = Inr ()"
    by code_simp
  have gen: "fst (generateAlogliaRecords ex_platform (pageFrontMatters ex_platform) ex_state) =
      Inr [\<lparr>objectID = Some ''a-1'', attributes = ''/a/''\<rparr>]"
    by code_simp
  from C8_second_run_changes_nothing [OF own, of ex_service ex_state] own ok gen
  show ?thesis by auto
qed

subsection \<open>Nothing stale\<close>

text \<open>
  Claim C9. If the computed stale set (existing identifiers minus newly saved
  identifiers) is empty, the driver returns early: it ends normally after the line
  \<open>No stale records to delete\<close>, the bulk delete of the index client is not invoked, and
  the upload is the only write: the index is as the save left it.
\<close>

theorem C9_no_delete_call_when_nothing_is_stale:
  assumes "fst (generateAlogliaRecords p (pageFrontMatters p) s) = Inr records"
    and "\<not> unavailable svc Browse" and "\<not> unavailable svc Save"
    and "recordsToDelete svc records (remote s) = []"
  shows "fst (indexAndUpload p svc indexName s) = Inr () \<and>
         last (trace (snd (indexAndUpload p svc indexName s))) = ConsoleLog NoStaleRecords \<and>
         remote_calls (trace (snd (indexAndUpload p svc indexName s))) =
           remote_calls (trace s) @ [BrowseObjects, SaveObjects records] \<and>
         (\<forall>ids. DeleteObjects ids \<in> set (trace (snd (indexAndUpload p svc indexName s))) \<longrightarrow>
            DeleteObjects ids \<in> set (trace s)) \<and>
         remote (snd (indexAndUpload p svc indexName s)) =
           snd (index_saveObjects svc records (remote s))"
proof -
  let ?s' = "snd (indexAndUpload p svc indexName s)"
  from assms(1) have r: "records_result p (pageFrontMatters p) = Inr records"
    by (simp add: generateAlogliaRecords_eq)
  from assms(4) have stale: "filter (\<lambda>id. id \<notin> set (new_Set (fst (index_saveObjects svc records (remote s)))))
      (existing_ids svc (remote s)) = []"
    by (simp add: recordsToDelete_def)
  have res: "fst (indexAndUpload p svc indexName s) = Inr ()"
    using r assms(2-4) by (simp add: indexAndUpload_result)
  have rem: "remote ?s' = snd (index_saveObjects svc records (remote s))"
    using r assms(2-4) by (simp add: indexAndUpload_remote)
  have calls: "remote_calls (trace ?s') = remote_calls (trace s) @ [BrowseObjects, SaveObjects records]"
    using r assms(2-4) by (simp add: indexAndUpload_remote_calls)
  have lst: "last (trace ?s') = ConsoleLog NoStaleRecords"
    using r assms(2,3) stale
    by (simp add: indexAndUpload_def generateAlogliaRecords_eq fetchExistingRecordIds_eq
        saveObjects_def log_simps Let_def case_prod_beta)
  have nodel: "DeleteObjects ids \<in> set (trace s)" if "DeleteObjects ids \<in> set (trace ?s')" for ids
  proof -
    from that have "DeleteObjects ids \<in> set (remote_calls (trace ?s'))"
      by (simp add: remote_calls_def)
    then have "DeleteObjects ids \<in> set (remote_calls (trace s))"
      by (simp add: calls)
    then show ?thesis by (simp add: remote_calls_def)
  qed
  from res lst calls nodel rem show ?thesis by blast
qed

theorem C9_witness:
  "recordsToDelete ex_service [\<lparr>objectID = Some ''a-1'', attributes = ''/a/''\<rparr>]
     (remote ex_state_synced) = [] \<and>
   fst (indexAndUpload ex_platform ex_service ''docs'' ex_state_synced) = Inr () \<and>
   remote_calls (trace (snd (indexAndUpload ex_platform ex_service ''docs'' ex_state_synced))) =
     [BrowseObjects, SaveObjects [\<lparr>objectID = Some ''a-1'', attributes = ''/a/''\<rparr>]]"
proof -
  have gen: "fst (generateAlogliaRecords ex_platform (pageFrontMatters ex_platform) ex_state_synced) =
      Inr [\<lparr>objectID = Some ''a-1'', attributes = ''/a/''\<rparr>]"
    by code_simp
  have av: "\<not> unavailable ex_service Browse" "\<not> unavailable ex_service Save"
    by code_simp+
  have stale: "recordsToDelete ex_service [\<lparr>objectID = Some ''a-1'', attributes = ''/a/''\<rparr>]
     (remote ex_state_synced) = []"
    by code_simp
  have tr: "remote_calls (trace ex_state_synced) = []"
    by code_simp
  from C9_no_delete_call_when_nothing_is_stale [OF gen av stale, of "''docs''"] stale tr
  show ?thesis by simp
qed

subsection \<open>The skip-on-error flag\<close>

lemma script_result_cases:
  assumes "configured p"
  shows "(\<exists>e. records_result p (pageFrontMatters p) = Inl e \<and> fst (script p svc s) = Inl e) \<or>
         (\<exists>records. records_result p (pageFrontMatters p) = Inr records \<and>
            (fst (script p svc s) = Inr () \<or> (\<exists>k. fst (script p svc s) = Inl (ServiceError k))))"
  using assms by (cases "records_result p (pageFrontMatters p)") (simp_all add: script_result)

text \<open>
  Claim C10. The skip-on-error policy is enabled if and only if the environment variable
  \<open>ALOGOLIA_SKIP_ON_ERROR\<close> is set to exactly the string \<open>true\<close>. For any other value, or
  when the variable is unset, the error of a failing page is thrown by \<open>getRecords\<close> and
  ends the run; with the value \<open>true\<close> the page yields no records and the run does not
  end with a processing error. The flag is not a required setting: a run with the three
  required settings never ends with a missing-configuration error, whatever the flag.
\<close>

theorem C10_skip_flag_is_exactly_true:
  "(ALOGOLIA_SKIP_ON_ERROR p \<longleftrightarrow> env p ''ALOGOLIA_SKIP_ON_ERROR'' = Some ''true'') \<and>
   (page_failure p d = Some c \<longrightarrow>
      fst (getRecords p d s) =
        (if env p ''ALOGOLIA_SKIP_ON_ERROR'' = Some ''true'' then Inr []
         else Inl (ProcessingError (slug d) c))) \<and>
   (configured p \<and> d \<in> set (pageFrontMatters p) \<and> indexable d \<and> page_failure p d = Some c \<longrightarrow>
      ((\<exists>sl c'. fst (script p svc s) = Inl (ProcessingError sl c')) \<longleftrightarrow>
       env p ''ALOGOLIA_SKIP_ON_ERROR'' \<noteq> Some ''true'')) \<and>
   (configured p \<longrightarrow> (\<forall>v. fst (script p svc s) \<noteq> Inl (MissingEnvVar v)))"
proof -
  have flag: "ALOGOLIA_SKIP_ON_ERROR p \<longleftrightarrow> env p ''ALOGOLIA_SKIP_ON_ERROR'' = Some ''true''"
    by (simp add: ALOGOLIA_SKIP_ON_ERROR_def)
  have page: "fst (getRecords p d s) =
      (if env p ''ALOGOLIA_SKIP_ON_ERROR'' = Some ''true'' then Inr []
       else Inl (ProcessingError (slug d) c))"
    if "page_failure p d = Some c"
    using that by (simp add: getRecords_eq page_result_def flag)
  have fatal: "(\<exists>sl c'. fst (script p svc s) = Inl (ProcessingError sl c')) \<longleftrightarrow>
      env p ''ALOGOLIA_SKIP_ON_ERROR'' \<noteq> Some ''true''"
    if conf: "configured p" and d: "d \<in> set (pageFrontMatters p)" "indexable d"
      "page_failure p d = Some c"
  proof
    assume "\<exists>sl c'. fst (script p svc s) = Inl (ProcessingError sl c')"
    with script_result_cases [OF conf, of svc s]
    obtain e where "records_result p (pageFrontMatters p) = Inl e"
      by auto
    from records_result_Inl [OF this] have "\<not> ALOGOLIA_SKIP_ON_ERROR p"
      by blast
    then show "env p ''ALOGOLIA_SKIP_ON_ERROR'' \<noteq> Some ''true''"
      by (simp add: flag)
  next
    assume "env p ''ALOGOLIA_SKIP_ON_ERROR'' \<noteq> Some ''true''"
    then have "\<not> ALOGOLIA_SKIP_ON_ERROR p"
      by (simp add: flag)
    with d obtain e where e: "records_result p (pageFrontMatters p) = Inl e"
      using records_result_fails by blast
    from records_result_Inl [OF e] obtain sl c' where "e = ProcessingError sl c'"
      by blast
    with e conf show "\<exists>sl c'. fst (script p svc s) = Inl (ProcessingError sl c')"
      by (simp add: script_result)
  qed
  have notmissing: "fst (script p svc s) \<noteq> Inl (MissingEnvVar v)" if conf: "configured p" for v
  proof
    assume m: "fst (script p svc s) = Inl (MissingEnvVar v)"
    with script_result_cases [OF conf, of svc s]
    have "records_result p (pageFrontMatters p) = Inl (MissingEnvVar v)"
      by auto
    from records_result_Inl [OF this] show False
      by blast
  qed
  from flag page fatal notmissing show ?thesis by blast
qed

theorem C10_witness:
  "env ex_platform_missing ''ALOGOLIA_SKIP_ON_ERROR'' = None \<and>
   configured ex_platform_missing \<and>
   page_failure ex_platform_missing page_m = Some (ENOENT ''/repo/.next/server/app/m.html'') \<and>
   (\<exists>sl c'. fst (script ex_platform_missing ex_service ex_state) = Inl (ProcessingError sl c')) \<and>
   env ex_platform_skip ''ALOGOLIA_SKIP_ON_ERROR'' = Some ''true'' \<and>
   fst (getRecords ex_platform_skip page_m ex_state) = Inr [] \<and>
   (\<forall>v. fst (script ex_platform_missing ex_service ex_state) \<noteq> Inl (MissingEnvVar v))"
proof -
  have unset: "env ex_platform_missing ''ALOGOLIA_SKIP_ON_ERROR'' = None"
    by code_simp
  have set: "env ex_platform_skip ''ALOGOLIA_SKIP_ON_ERROR'' = Some ''true''"
    by code_simp
  have conf: "configured ex_platform_missing"
    by code_simp
  have d: "page_m \<in> set (pageFrontMatters ex_platform_missing)" "indexable page_m"
    by code_simp+
  have f1: "page_failure ex_platform_missing page_m = Some (ENOENT ''/repo/.next/server/app/m.html'')"
    by code_simp
  have f2: "page_failure ex_platform_skip page_m = Some (ENOENT ''/repo/.next/server/app/m.html'')"
    by code_simp
  note run = C10_skip_flag_is_exactly_true
    [of ex_platform_missing page_m "ENOENT ''/repo/.next/server/app/m.html''" ex_state ex_service]
  note page = C10_skip_flag_is_exactly_true
    [of ex_platform_skip page_m "ENOENT ''/repo/.next/server/app/m.html''" ex_state ex_service]
  from run unset conf d f1
  have a: "\<exists>sl c'. fst (script ex_platform_missing ex_service ex_state) = Inl (ProcessingError sl c')"
    by simp
  from run conf
  have b: "\<forall>v. fst (script ex_platform_missing ex_service ex_state) \<noteq> Inl (MissingEnvVar v)"
    by blast
  from page set f2
  have c: "fst (getRecords ex_platform_skip page_m ex_state) = Inr []"
    by simp
  from unset set conf f1 a b c show ?thesis by blast
qed

end
